theory Spec2Isabelle
  imports Main "HOL-Library.AList" "HOL-Library.Char_ord" "HOL-Library.List_Lexorder"
begin

section \<open>The sync engine (sync-engine.js, docs/sync-architecture.md)\<close>

subsection \<open>The todos table\<close>

text \<open>
  A row of the SQLite table \<^verbatim>\<open>todos\<close>. Timestamps are integer milliseconds,
  \<^verbatim>\<open>completed\<close>, \<^verbatim>\<open>deleted\<close> and \<^verbatim>\<open>synced\<close> are SQLite integers, the nullable columns
  are options. Device ids and todo ids are strings; JavaScript's \<^verbatim>\<open><\<close> on strings is the
  lexicographic order on code units, here the lexicographic order on \<^typ>\<open>char list\<close>.
  The column \<^verbatim>\<open>id\<close> is the field \<open>id_todo\<close>.
\<close>

record todo =
  id_todo :: string
  title :: string
  description :: "string option"
  completed :: int
  priority :: string
  due_date :: "int option"
  device_id :: string
  created_at :: int
  updated_at :: int
  deleted :: int
  synced :: int

text \<open>The table is the list of its rows, in storage order.\<close>

type_synonym todos_table = "todo list"

datatype db_error = ConstraintPrimaryKey

text \<open>
  Modelled from the spec: \<^verbatim>\<open>getTodoById\<close> is called by \<^verbatim>\<open>mergeTodo\<close> and is not
  defined in the document; the spec's Record Store exposes get-by-id, so it is the row with
  that id, or nothing (which JavaScript's \<^verbatim>\<open>!localTodo\<close> tests).
\<close>

definition getTodoById :: "todos_table \<Rightarrow> string \<Rightarrow> todo option" where
  "getTodoById db i = find (\<lambda>row. id_todo row = i) db"

text \<open>
  \<^verbatim>\<open>INSERT INTO todos (id, title, description, completed, priority, due_date, device_id,
  created_at, updated_at, deleted) VALUES (...)\<close>: the column \<^verbatim>\<open>synced\<close> is not listed
  and takes its default 0; \<^verbatim>\<open>id\<close> is the primary key, so a second row with the same id
  is refused and the statement throws.
\<close>

definition insertTodo :: "todo \<Rightarrow> todos_table \<Rightarrow> db_error + todos_table" where
  "insertTodo t db =
     (if id_todo t \<in> set (map id_todo db) then Inl ConstraintPrimaryKey
      else Inr (db @ [t\<lparr>synced := 0\<rparr>]))"

text \<open>
  \<^verbatim>\<open>UPDATE todos SET title = ?, description = ?, completed = ?, priority = ?, due_date = ?,
  updated_at = ?, deleted = ? WHERE id = ?\<close>: the other columns keep their values, and no row
  matching is not an error.
\<close>

definition updateTodo :: "todo \<Rightarrow> todos_table \<Rightarrow> todos_table" where
  "updateTodo t db =
     map (\<lambda>row. if id_todo row = id_todo t
                then row\<lparr>title := title t, description := description t,
                         completed := completed t, priority := priority t,
                         due_date := due_date t, updated_at := updated_at t,
                         deleted := deleted t\<rparr>
                else row) db"

subsection \<open>Merging\<close>

text \<open>
  \<^verbatim>\<open>mergeTodo\<close> of the class \<^verbatim>\<open>SyncEngine\<close> (Implementation Details), the one
  \<^verbatim>\<open>handleSyncData\<close> calls.
\<close>

definition mergeTodo :: "todo \<Rightarrow> todos_table \<Rightarrow> db_error + todos_table" where
  "mergeTodo remoteTodo db =
     (case getTodoById db (id_todo remoteTodo) of
        None \<Rightarrow> insertTodo remoteTodo db
      | Some localTodo \<Rightarrow>
          if updated_at remoteTodo > updated_at localTodo
          then Inr (updateTodo remoteTodo db)
          else Inr db)"

text \<open>
  The second \<^verbatim>\<open>mergeTodo\<close> of the document, in its section Conflict Resolution, with the
  branch for equal timestamps.
\<close>

definition mergeTodo_conflict_resolution :: "todo \<Rightarrow> todos_table \<Rightarrow> db_error + todos_table" where
  "mergeTodo_conflict_resolution remoteTodo db =
     (case getTodoById db (id_todo remoteTodo) of
        None \<Rightarrow> insertTodo remoteTodo db
      | Some localTodo \<Rightarrow>
          if updated_at remoteTodo > updated_at localTodo
          then Inr (updateTodo remoteTodo db)
          else if updated_at remoteTodo < updated_at localTodo
          then Inr db
          else if device_id remoteTodo < device_id localTodo
          then Inr (updateTodo remoteTodo db)
          else Inr db)"

text \<open>
  \<^verbatim>\<open>handleSyncData\<close>: the \<^verbatim>\<open>for\<close> loop over the todos of the payload; an exception of
  \<^verbatim>\<open>mergeTodo\<close> leaves the loop. What follows the loop (a log line and
  \<^verbatim>\<open>checkSyncCompletion\<close>, which the document does not define) is not part of the model.
\<close>

fun handleSyncData :: "todo list \<Rightarrow> todos_table \<Rightarrow> db_error + todos_table" where
  "handleSyncData [] db = Inr db"
| "handleSyncData (t # ts) db =
     (case mergeTodo t db of Inl e \<Rightarrow> Inl e | Inr db' \<Rightarrow> handleSyncData ts db')"

text \<open>
  \<^verbatim>\<open>validateTimestamp\<close> of the section Device Clock Skew; \<open>now\<close> is the reading of
  \<^verbatim>\<open>Date.now()\<close>. No function of the document calls it.
\<close>

definition oneDay :: int where
  "oneDay = 24 * 60 * 60 * 1000"

definition validateTimestamp :: "int \<Rightarrow> int \<Rightarrow> int" where
  "validateTimestamp now ts = (if \<bar>ts - now\<bar> > oneDay then now else ts)"

subsection \<open>Answering a request\<close>

record sync_data_payload =
  todos :: "todo list"
  batchIndex :: "nat option"
  totalBatches :: "nat option"

record client_message =
  msg_type :: string
  payload :: sync_data_payload
  sessionId :: string
  fromDevice :: string
  timestamp :: int

record sync_engine =
  this_db :: todos_table
  this_sessionId :: string
  this_deviceId :: string

text \<open>
  \<^verbatim>\<open>SELECT * FROM todos WHERE id IN (...)\<close>: the rows whose id is listed, each once. SQLite
  finds them through the index of the primary key, so they come in the order of their ids
  (byte-wise, the order on \<^typ>\<open>char list\<close>).
\<close>

definition getTodosByIds :: "todos_table \<Rightarrow> string list \<Rightarrow> todo list" where
  "getTodosByIds tbl ids = sort_key id_todo (filter (\<lambda>row. id_todo row \<in> set ids) tbl)"

text \<open>
  \<^verbatim>\<open>sendMessage\<close> completes the message with the session id, the device id and the
  clock reading and writes it to the socket; the model returns the message written.
\<close>

definition sendMessage :: "sync_engine \<Rightarrow> int \<Rightarrow> string \<Rightarrow> sync_data_payload \<Rightarrow> client_message" where
  "sendMessage eng now ty pl =
     \<lparr>msg_type = ty, payload = pl, sessionId = this_sessionId eng,
      fromDevice = this_deviceId eng, timestamp = now\<rparr>"

text \<open>\<^verbatim>\<open>handleSyncRequest\<close>: the list of the messages it sends.\<close>

definition handleSyncRequest :: "sync_engine \<Rightarrow> int \<Rightarrow> string list \<Rightarrow> client_message list" where
  "handleSyncRequest eng now needIds =
     [sendMessage eng now ''SYNC_DATA''
        \<lparr>todos = getTodosByIds (this_db eng) needIds, batchIndex = None, totalBatches = None\<rparr>]"

text \<open>
  \<^verbatim>\<open>sendTodosInBatches\<close> of the section Large Todo List, which no function of the
  document calls. \<open>clock k\<close> is the reading of \<^verbatim>\<open>Date.now()\<close> at the \<open>k\<close>-th message.
  The batch size is a natural number (its default is 100); \<^verbatim>\<open>Math.floor(i / batchSize)\<close>
  and \<^verbatim>\<open>Math.ceil(todos.length / batchSize)\<close> are then the integer quotients below.
  With a batch size of 0 and a non-empty list the JavaScript loop never advances: the
  result is \<open>None\<close>.
\<close>

function batches_loop ::
  "sync_engine \<Rightarrow> (nat \<Rightarrow> int) \<Rightarrow> todo list \<Rightarrow> nat \<Rightarrow> nat \<Rightarrow> client_message list" where
  "batches_loop eng clock ts batchSize i =
     (if i < length ts \<and> 0 < batchSize
      then sendMessage eng (clock (i div batchSize)) ''SYNC_DATA''
             \<lparr>todos = take batchSize (drop i ts),
              batchIndex = Some (i div batchSize),
              totalBatches = Some ((length ts + batchSize - 1) div batchSize)\<rparr>
           # batches_loop eng clock ts batchSize (i + batchSize)
      else [])"
  by pat_completeness auto
termination
  by (relation "measure (\<lambda>(eng, clock, ts, batchSize, i). length ts - i)") auto

definition sendTodosInBatches ::
  "sync_engine \<Rightarrow> (nat \<Rightarrow> int) \<Rightarrow> todo list \<Rightarrow> nat \<Rightarrow> client_message list option" where
  "sendTodosInBatches eng clock ts batchSize =
     (if batchSize = 0 \<and> ts \<noteq> [] then None else Some (batches_loop eng clock ts batchSize 0))"

text \<open>
  A store of 250 rows and the list of their ids, for the scenario of a request for 250
  ids: the \<open>n\<close>-th id is \<open>n + 1\<close> letters \<^verbatim>\<open>a\<close>.
\<close>

definition sample_id :: "nat \<Rightarrow> string" where
  "sample_id n = replicate (Suc n) CHR ''a''"

definition sample_todo :: "string \<Rightarrow> string \<Rightarrow> string \<Rightarrow> int \<Rightarrow> int \<Rightarrow> todo" where
  "sample_todo i ttl dev created updated =
     \<lparr>id_todo = i, title = ttl, description = None, completed = 0,
      priority = ''medium'', due_date = None, device_id = dev, created_at = created,
      updated_at = updated, deleted = 0, synced = 0\<rparr>"

definition sample_row :: "nat \<Rightarrow> todo" where
  "sample_row n = sample_todo (sample_id n) ''t'' ''dev'' 1 1"

definition sample_engine :: sync_engine where
  "sample_engine =
     \<lparr>this_db = map sample_row [0..<250], this_sessionId = ''s'', this_deviceId = ''dev''\<rparr>"

section \<open>The relay server (server/sync.go, docs/sync-architecture.md)\<close>

subsection \<open>Messages, sessions, effects\<close>

text \<open>
  A \<^verbatim>\<open>*websocket.Conn\<close> is a pointer; the model keeps its identity, a number. The
  payload \<^verbatim>\<open>map[string]interface{}\<close> is a parameter of the message type, \<open>None\<close> the
  nil map. \<^verbatim>\<open>ReadJSON\<close> leaves a field that the JSON text lacks at its zero value: a
  missing \<^verbatim>\<open>sessionId\<close> is the empty string.
\<close>

type_synonym conn = nat

record 'p SyncMessage =
  Type :: string
  SessionID :: string
  FromDevice :: string
  ToDevice :: string
  Timestamp :: int
  Payload :: "'p option"

text \<open>
  A Go map is the list of its entries with pairwise different keys: lookup is
  \<^const>\<open>map_of\<close>, assignment \<^const>\<open>AList.update\<close>, \<^verbatim>\<open>delete\<close> is
  \<^const>\<open>AList.delete\<close>, \<^verbatim>\<open>len\<close> is \<^const>\<open>length\<close>, and \<^verbatim>\<open>range\<close> visits the
  entries in the order of the list (Go leaves the order open; the theorems below do not
  depend on it). The field \<^verbatim>\<open>SessionID\<close> of a session is \<open>sess_SessionID\<close>;
  \<^verbatim>\<open>CreatedAt\<close> is a time in nanoseconds.
\<close>

record SyncSession =
  sess_SessionID :: string
  Connections :: "(string \<times> conn) list"
  CreatedAt :: int

type_synonym sessions = "(string \<times> SyncSession) list"

text \<open>
  What an operation does to the world outside the session map, in program order: a
  \<^verbatim>\<open>WriteJSON\<close> on a connection (whether or not the write succeeds: its error is only
  logged), a \<^verbatim>\<open>Close\<close> of a connection, and the removal of a session from the map.
  Log lines are left out. The mutexes are not part of the state: each operation of the
  registry is taken as starting alone, with every lock free, so the only lock call that
  does not return is one on a lock the operation itself still holds.
\<close>

datatype 'p effect =
    WriteJSON conn "'p SyncMessage"
  | ConnClose conn
  | SessionDelete string

subsection \<open>Time\<close>

text \<open>
  \<^verbatim>\<open>time.Duration\<close> is a signed 64-bit count of nanoseconds; \<^verbatim>\<open>Time.Sub\<close> returns
  the largest or the smallest duration when the difference does not fit.
\<close>

definition maxDuration :: int where
  "maxDuration = 2 ^ 63 - 1"

definition minDuration :: int where
  "minDuration = - (2 ^ 63)"

definition time_Sub :: "int \<Rightarrow> int \<Rightarrow> int" where
  "time_Sub t u =
     (let d = t - u in
      if d > maxDuration then maxDuration else if d < minDuration then minDuration else d)"

definition Minute :: int where
  "Minute = 60 * 1000000000"

text \<open>\<^verbatim>\<open>Time.UnixMilli\<close> of a time in nanoseconds.\<close>

definition UnixMilli :: "int \<Rightarrow> int" where
  "UnixMilli t = t div 1000000"

subsection \<open>The registry operations\<close>

text \<open>
  \<^verbatim>\<open>cleanupSessions\<close>: the \<^verbatim>\<open>range\<close> over the session map visits every entry the map
  had when the loop began (the body deletes the current entry only); the second list is
  the map as it is updated.
\<close>

fun cleanup_range ::
  "int \<Rightarrow> (string \<times> SyncSession) list \<Rightarrow> sessions \<Rightarrow> 'p effect list \<times> sessions" where
  "cleanup_range now [] m = ([], m)"
| "cleanup_range now ((sessionID, session) # rest) m =
     (if time_Sub now (CreatedAt session) > 15 * Minute
      then (let (effs, m') = cleanup_range now rest (AList.delete sessionID m)
            in (map ConnClose (map snd (Connections session)) @ [SessionDelete sessionID] @ effs,
                m'))
      else cleanup_range now rest m)"

definition cleanupSessions :: "int \<Rightarrow> sessions \<Rightarrow> 'p effect list \<times> sessions" where
  "cleanupSessions now m = cleanup_range now m m"

text \<open>\<^verbatim>\<open>relayMessage\<close>: the loop over the connections of the session, then the function.\<close>

fun relay_range :: "string \<Rightarrow> 'p SyncMessage \<Rightarrow> (string \<times> conn) list \<Rightarrow> 'p effect list" where
  "relay_range fromDevice' msg [] = []"
| "relay_range fromDevice' msg ((deviceID, c) # rest) =
     (if deviceID \<noteq> fromDevice'
      then WriteJSON c msg # relay_range fromDevice' msg rest
      else relay_range fromDevice' msg rest)"

definition relayMessage :: "string \<Rightarrow> string \<Rightarrow> 'p SyncMessage \<Rightarrow> sessions \<Rightarrow> 'p effect list" where
  "relayMessage sessionID fromDevice' msg m =
     (case map_of m sessionID of
        None \<Rightarrow> []
      | Some session \<Rightarrow> relay_range fromDevice' msg (Connections session))"

text \<open>
  A call on the registry either returns, with its effects and the session map it leaves,
  or blocks for ever on a lock, with the session map as it is at that moment.
\<close>

datatype 'p outcome =
    Returns "'p effect list" sessions
  | Blocks sessions

fun effects_of :: "'p outcome \<Rightarrow> 'p effect list" where
  "effects_of (Returns effs m) = effs"
| "effects_of (Blocks m) = []"

fun registry_of :: "'p outcome \<Rightarrow> sessions" where
  "registry_of (Returns effs m) = m"
| "registry_of (Blocks m) = m"

text \<open>
  The state of \<^verbatim>\<open>sessionsMu\<close> as a call of \<^verbatim>\<open>RLock\<close> finds it, and whether that call
  returns: a Go \<^verbatim>\<open>RWMutex\<close> gives no read lock while the write lock is held.
\<close>

datatype rwmutex = Unlocked | WriteLocked

definition RLock_returns :: "rwmutex \<Rightarrow> bool" where
  "RLock_returns mu = (mu \<noteq> WriteLocked)"

text \<open>
  \<^verbatim>\<open>handleJoin\<close>; \<open>now\<close> is the reading of \<^verbatim>\<open>time.Now()\<close>. The session is held by
  pointer, so the assignment to its \<^verbatim>\<open>Connections\<close> is an update of the entry of the
  map. The function takes the write lock of \<^verbatim>\<open>sessionsMu\<close> and releases it only when it
  returns (\<^verbatim>\<open>defer\<close>); its last statement calls \<^verbatim>\<open>relayMessage\<close>, whose first
  statement is \<^verbatim>\<open>sessionsMu.RLock()\<close>. That call finds the mutex write-locked by the
  caller itself, so it never returns: \<^verbatim>\<open>handleJoin\<close> blocks after its two assignments,
  nothing is written, and the write lock stays held.
\<close>

definition handleJoin ::
  "string \<Rightarrow> string \<Rightarrow> conn \<Rightarrow> 'p SyncMessage \<Rightarrow> int \<Rightarrow> sessions \<Rightarrow> 'p outcome" where
  "handleJoin sessionID deviceID c msg now m =
     (let (session, m1) =
            (case map_of m sessionID of
               Some s \<Rightarrow> (s, m)
             | None \<Rightarrow>
                 (let s = \<lparr>sess_SessionID = sessionID, Connections = [], CreatedAt = now\<rparr>
                  in (s, AList.update sessionID s m)));
          m2 = AList.update sessionID
                 (session\<lparr>Connections := AList.update deviceID c (Connections session)\<rparr>) m1
      in if RLock_returns WriteLocked
         then Returns (relayMessage sessionID deviceID msg m2) m2
         else Blocks m2)"

text \<open>\<^verbatim>\<open>removeConnection\<close>.\<close>

definition removeConnection :: "string \<Rightarrow> string \<Rightarrow> sessions \<Rightarrow> 'p effect list \<times> sessions" where
  "removeConnection sessionID deviceID m =
     (case map_of m sessionID of
        None \<Rightarrow> ([], m)
      | Some session \<Rightarrow>
          (let conns = AList.delete deviceID (Connections session);
               remainingDevices = length conns
           in if remainingDevices = 0
              then ([SessionDelete sessionID], AList.delete sessionID m)
              else ([], AList.update sessionID (session\<lparr>Connections := conns\<rparr>) m)))"

subsection \<open>The connection handler\<close>

text \<open>
  The body of the \<^verbatim>\<open>for\<close> loop of \<^verbatim>\<open>syncWebSocketHandler\<close> after a successful
  \<^verbatim>\<open>ReadJSON\<close>: the \<^verbatim>\<open>switch\<close> on the type of the message, which has no
  \<^verbatim>\<open>default\<close> case. Here \<^verbatim>\<open>relayMessage\<close> is called with no lock held by the caller.
\<close>

definition handle_message ::
  "conn \<Rightarrow> int \<Rightarrow> 'p SyncMessage \<Rightarrow> sessions \<Rightarrow> 'p outcome" where
  "handle_message c now msg m =
     (let sessionID = SessionID msg; deviceID = FromDevice msg in
      if Type msg = ''JOIN'' then handleJoin sessionID deviceID c msg now m
      else if Type msg \<in> {''METADATA_EXCHANGE'', ''REQUEST_SYNC'', ''SYNC_DATA'',
                          ''SYNC_COMPLETE'', ''ERROR''}
      then Returns (relayMessage sessionID deviceID msg m) m
      else if Type msg = ''PING''
      then Returns [WriteJSON c \<lparr>Type = ''PONG'', SessionID = sessionID, FromDevice = '''',
                          ToDevice = '''', Timestamp = UnixMilli now, Payload = None\<rparr>] m
      else Returns [] m)"

text \<open>
  The handler of one connection, after the upgrade, on the reads that arrive: each read
  comes with the clock reading of its iteration and is a decoded message or an error
  (the connection is gone, or the frame does not decode into the envelope: bad JSON, or a
  field of the wrong JSON type). A read error leaves the loop: the connection is removed
  under the session id and device id of the last message and closed. When the reads are
  used up the handler waits in \<^verbatim>\<open>ReadJSON\<close> with the connection open. When a call
  blocks, the handler stays in it: no later read is taken and the connection is neither
  removed nor closed.
\<close>

datatype 'p read_result = ReadError | ReadOK "'p SyncMessage"

datatype conn_status = Reading | Closed | Blocked

fun handler_loop ::
  "conn \<Rightarrow> string \<Rightarrow> string \<Rightarrow> (int \<times> 'p read_result) list \<Rightarrow> sessions
     \<Rightarrow> 'p effect list \<times> sessions \<times> conn_status" where
  "handler_loop c sessionID deviceID [] m = ([], m, Reading)"
| "handler_loop c sessionID deviceID ((now, ReadError) # rest) m =
     (let (effs, m') = removeConnection sessionID deviceID m
      in (effs @ [ConnClose c], m', Closed))"
| "handler_loop c sessionID deviceID ((now, ReadOK msg) # rest) m =
     (case handle_message c now msg m of
        Blocks m' \<Rightarrow> ([], m', Blocked)
      | Returns effs m' \<Rightarrow>
          (let (effs', m'', st) = handler_loop c (SessionID msg) (FromDevice msg) rest m'
           in (effs @ effs', m'', st)))"

definition syncWebSocketHandler ::
  "conn \<Rightarrow> (int \<times> 'p read_result) list \<Rightarrow> sessions \<Rightarrow> 'p effect list \<times> sessions \<times> conn_status" where
  "syncWebSocketHandler c reads m = handler_loop c '''' '''' reads m"

text \<open>The connections an effect list writes to, in order.\<close>

fun receivers :: "'p effect list \<Rightarrow> conn list" where
  "receivers [] = []"
| "receivers (WriteJSON c msg # effs) = c # receivers effs"
| "receivers (ConnClose c # effs) = receivers effs"
| "receivers (SessionDelete sessionID # effs) = receivers effs"

text \<open>Registries and messages for the concrete scenarios.\<close>

definition sample_session :: "string \<Rightarrow> (string \<times> conn) list \<Rightarrow> int \<Rightarrow> SyncSession" where
  "sample_session sessionID conns created =
     \<lparr>sess_SessionID = sessionID, Connections = conns, CreatedAt = created\<rparr>"

definition sample_message :: "string \<Rightarrow> string \<Rightarrow> string \<Rightarrow> string \<Rightarrow> unit SyncMessage" where
  "sample_message ty sessionID sender recipient =
     \<lparr>Type = ty, SessionID = sessionID, FromDevice = sender, ToDevice = recipient, Timestamp = 0,
      Payload = None\<rparr>"

section \<open>Properties of the sync engine\<close>

subsection \<open>Looking a row up after a statement\<close>

lemma getTodoById_None_iff: "getTodoById db i = None \<longleftrightarrow> i \<notin> set (map id_todo db)"
  by (induction db) (auto simp: getTodoById_def)

lemma getTodoById_Some_id: "getTodoById db i = Some l \<Longrightarrow> id_todo l = i"
  by (induction db) (auto simp: getTodoById_def split: if_splits)

lemma getTodoById_append:
  "getTodoById (db @ [x]) i =
     (case getTodoById db i of Some l \<Rightarrow> Some l | None \<Rightarrow> if id_todo x = i then Some x else None)"
  by (induction db) (auto simp: getTodoById_def)

lemma getTodoById_updateTodo:
  "getTodoById (updateTodo t db) i =
     (case getTodoById db i of None \<Rightarrow> None
      | Some row \<Rightarrow> Some (if i = id_todo t
                then row\<lparr>title := title t, description := description t,
                         completed := completed t, priority := priority t,
                         due_date := due_date t, updated_at := updated_at t,
                         deleted := deleted t\<rparr>
                else row))"
  by (induction db) (auto simp: getTodoById_def updateTodo_def)

lemma getTodoById_mergeTodo_same:
  assumes "getTodoById db (id_todo r) = Some l"
  shows "\<exists>db'. mergeTodo r db = Inr db' \<and>
           getTodoById db' (id_todo r) =
             Some (if updated_at l < updated_at r
                   then l\<lparr>title := title r, description := description r,
                           completed := completed r, priority := priority r,
                           due_date := due_date r, updated_at := updated_at r,
                           deleted := deleted r\<rparr>
                   else l)"
  using assms by (simp add: mergeTodo_def getTodoById_updateTodo)

lemma updateTodo_frame:
  "map id_todo (updateTodo t db) = map id_todo db"
  "map device_id (updateTodo t db) = map device_id db"
  "map created_at (updateTodo t db) = map created_at db"
  "map synced (updateTodo t db) = map synced db"
  by (induction db) (simp_all add: updateTodo_def)

subsection \<open>The frame of a merge\<close>

text \<open>
  Claim C8. When the incoming record is already present locally, \<^verbatim>\<open>mergeTodo\<close> returns
  and the stored record keeps its \<^verbatim>\<open>created_at\<close> (and its id, \<^verbatim>\<open>device_id\<close> and
  \<^verbatim>\<open>synced\<close>); no row of the table changes its \<^verbatim>\<open>created_at\<close>. When the incoming
  version is newer the payload columns, \<^verbatim>\<open>updated_at\<close> and \<^verbatim>\<open>deleted\<close> are the
  incoming ones, otherwise the stored record is the local one.
\<close>

theorem mergeTodo_keeps_created_at:
  assumes "getTodoById db (id_todo remoteTodo) = Some localTodo"
  shows "\<exists>db' stored.
           mergeTodo remoteTodo db = Inr db' \<and>
           getTodoById db' (id_todo remoteTodo) = Some stored \<and>
           created_at stored = created_at localTodo \<and>
           id_todo stored = id_todo localTodo \<and>
           device_id stored = device_id localTodo \<and>
           synced stored = synced localTodo \<and>
           map created_at db' = map created_at db \<and>
           (if updated_at localTodo < updated_at remoteTodo
            then title stored = title remoteTodo \<and> description stored = description remoteTodo \<and>
                 completed stored = completed remoteTodo \<and> priority stored = priority remoteTodo \<and>
                 due_date stored = due_date remoteTodo \<and>
                 updated_at stored = updated_at remoteTodo \<and> deleted stored = deleted remoteTodo
            else stored = localTodo)"
proof -
  from getTodoById_mergeTodo_same [OF assms]
  obtain db' where m: "mergeTodo remoteTodo db = Inr db'"
    and g: "getTodoById db' (id_todo remoteTodo) =
             Some (if updated_at localTodo < updated_at remoteTodo
                   then localTodo\<lparr>title := title remoteTodo, description := description remoteTodo,
                           completed := completed remoteTodo, priority := priority remoteTodo,
                           due_date := due_date remoteTodo, updated_at := updated_at remoteTodo,
                           deleted := deleted remoteTodo\<rparr>
                   else localTodo)"
    by blast
  from m assms have "map created_at db' = map created_at db"
    by (auto simp: mergeTodo_def updateTodo_frame split: if_splits)
  with m g show ?thesis by auto
qed

theorem mergeTodo_keeps_created_at_witness:
  "getTodoById [sample_todo ''x'' ''old'' ''dev-a'' 5 10] (id_todo (sample_todo ''x'' ''new'' ''dev-b'' 7 20))
     = Some (sample_todo ''x'' ''old'' ''dev-a'' 5 10) \<and>
   mergeTodo (sample_todo ''x'' ''new'' ''dev-b'' 7 20) [sample_todo ''x'' ''old'' ''dev-a'' 5 10]
     = Inr [sample_todo ''x'' ''new'' ''dev-a'' 5 20]"
  using mergeTodo_keeps_created_at
    [of "[sample_todo ''x'' ''old'' ''dev-a'' 5 10]" "sample_todo ''x'' ''new'' ''dev-b'' 7 20"
        "sample_todo ''x'' ''old'' ''dev-a'' 5 10"]
  by (simp add: getTodoById_def mergeTodo_def updateTodo_def sample_todo_def)

subsection \<open>Merging a batch twice\<close>

lemma mergeTodo_returns: "\<exists>db'. mergeTodo r db = Inr db'"
  by (auto simp: mergeTodo_def insertTodo_def getTodoById_None_iff split: option.splits)

lemma mergeTodo_covers:
  assumes "mergeTodo r db = Inr db'"
  shows "\<exists>l. getTodoById db' (id_todo r) = Some l \<and> updated_at r \<le> updated_at l"
  using assms
  by (auto simp: mergeTodo_def insertTodo_def getTodoById_append getTodoById_updateTodo
      split: option.splits if_splits)

lemma mergeTodo_mono:
  assumes "mergeTodo r db = Inr db'" and "getTodoById db i = Some l"
  shows "\<exists>l'. getTodoById db' i = Some l' \<and> updated_at l \<le> updated_at l'"
  using assms
  by (auto simp: mergeTodo_def insertTodo_def getTodoById_append getTodoById_updateTodo
      split: option.splits if_splits)

lemma mergeTodo_noop:
  assumes "getTodoById db (id_todo r) = Some l" and "updated_at r \<le> updated_at l"
  shows "mergeTodo r db = Inr db"
  using assms by (simp add: mergeTodo_def)

lemma handleSyncData_returns: "\<exists>db'. handleSyncData ts db = Inr db'"
proof (induction ts arbitrary: db)
  case Nil
  show ?case by simp
next
  case (Cons t ts)
  obtain db1 where "mergeTodo t db = Inr db1" using mergeTodo_returns by blast
  with Cons.IH [of db1] show ?case by simp
qed

lemma handleSyncData_mono:
  assumes "handleSyncData ts db = Inr db'" and "getTodoById db i = Some l"
  shows "\<exists>l'. getTodoById db' i = Some l' \<and> updated_at l \<le> updated_at l'"
  using assms
proof (induction ts arbitrary: db l)
  case Nil
  then show ?case by simp
next
  case (Cons t ts)
  obtain db1 where m: "mergeTodo t db = Inr db1" using mergeTodo_returns by blast
  with Cons.prems have rest: "handleSyncData ts db1 = Inr db'" by simp
  from mergeTodo_mono [OF m Cons.prems(2)]
  obtain l1 where l1: "getTodoById db1 i = Some l1" "updated_at l \<le> updated_at l1" by blast
  from Cons.IH [OF rest l1(1)] l1(2) show ?case by force
qed

lemma handleSyncData_covers:
  assumes "handleSyncData ts db = Inr db'" and "r \<in> set ts"
  shows "\<exists>l. getTodoById db' (id_todo r) = Some l \<and> updated_at r \<le> updated_at l"
  using assms
proof (induction ts arbitrary: db)
  case Nil
  then show ?case by simp
next
  case (Cons t ts)
  obtain db1 where m: "mergeTodo t db = Inr db1" using mergeTodo_returns by blast
  with Cons.prems have rest: "handleSyncData ts db1 = Inr db'" by simp
  show ?case
  proof (cases "r \<in> set ts")
    case True
    from Cons.IH [OF rest True] show ?thesis .
  next
    case False
    with Cons.prems(2) have "r = t" by simp
    with mergeTodo_covers [OF m]
    obtain l1 where l1: "getTodoById db1 (id_todo r) = Some l1" "updated_at r \<le> updated_at l1"
      by blast
    from handleSyncData_mono [OF rest l1(1)] l1(2) show ?thesis by force
  qed
qed

lemma handleSyncData_noop:
  assumes "\<And>r. r \<in> set ts \<Longrightarrow>
             \<exists>l. getTodoById db (id_todo r) = Some l \<and> updated_at r \<le> updated_at l"
  shows "handleSyncData ts db = Inr db"
  using assms
proof (induction ts)
  case Nil
  show ?case by simp
next
  case (Cons t ts)
  from Cons.prems [of t] obtain l where "getTodoById db (id_todo t) = Some l"
    "updated_at t \<le> updated_at l" by auto
  then have "mergeTodo t db = Inr db" by (rule mergeTodo_noop)
  moreover have "handleSyncData ts db = Inr db" using Cons.IH Cons.prems by simp
  ultimately show ?case by simp
qed

text \<open>
  Claim C2. For every table and every batch of records (ids may repeat in the batch),
  \<^verbatim>\<open>handleSyncData\<close> returns, and applying the same batch to the table it leaves gives
  that table again.
\<close>

theorem handleSyncData_idempotent:
  "\<exists>db'. handleSyncData ts db = Inr db' \<and> handleSyncData ts db' = Inr db'"
proof -
  obtain db' where once: "handleSyncData ts db = Inr db'"
    using handleSyncData_returns by blast
  have "handleSyncData ts db' = Inr db'"
    by (rule handleSyncData_noop) (rule handleSyncData_covers [OF once])
  with once show ?thesis by blast
qed

subsection \<open>Equal timestamps\<close>

text \<open>
  The \<^verbatim>\<open>mergeTodo\<close> of the section Conflict Resolution: the incoming record overwrites
  the payload when it is newer, or equally old with the smaller device id.
\<close>

lemma mergeTodo_conflict_resolution_tiebreak:
  assumes "getTodoById db (id_todo r) = Some l"
  shows "\<exists>db'. mergeTodo_conflict_resolution r db = Inr db' \<and>
           getTodoById db' (id_todo r) =
             Some (if updated_at l < updated_at r \<or>
                      (updated_at l = updated_at r \<and> device_id r < device_id l)
                   then l\<lparr>title := title r, description := description r,
                           completed := completed r, priority := priority r,
                           due_date := due_date r, updated_at := updated_at r,
                           deleted := deleted r\<rparr>
                   else l)"
  using assms by (auto simp: mergeTodo_conflict_resolution_def getTodoById_updateTodo)

text \<open>
  Claim C1. Two replicas hold the record \<^verbatim>\<open>x\<close> with the same \<^verbatim>\<open>updated_at\<close> 10, one
  with device id \<^verbatim>\<open>b\<close>, the other with device id \<^verbatim>\<open>a\<close>, and each receives the other's
  version. \<^verbatim>\<open>mergeTodo\<close> of the sync engine keeps the local version on both, so the
  replicas stay different and the version of device \<^verbatim>\<open>a\<close> does not win on the first; the
  \<^verbatim>\<open>mergeTodo\<close> of the section Conflict Resolution takes the payload of device
  \<^verbatim>\<open>a\<close> there.
\<close>

theorem mergeTodo_tie_keeps_local:
  "mergeTodo (sample_todo ''x'' ''from-a'' ''a'' 1 10) [sample_todo ''x'' ''from-b'' ''b'' 1 10]
     = Inr [sample_todo ''x'' ''from-b'' ''b'' 1 10] \<and>
   mergeTodo (sample_todo ''x'' ''from-b'' ''b'' 1 10) [sample_todo ''x'' ''from-a'' ''a'' 1 10]
     = Inr [sample_todo ''x'' ''from-a'' ''a'' 1 10] \<and>
   mergeTodo_conflict_resolution (sample_todo ''x'' ''from-a'' ''a'' 1 10)
       [sample_todo ''x'' ''from-b'' ''b'' 1 10]
     = Inr [sample_todo ''x'' ''from-a'' ''b'' 1 10]"
  by (simp add: getTodoById_def mergeTodo_def mergeTodo_conflict_resolution_def updateTodo_def
      sample_todo_def)

subsection \<open>Timestamps far from the local clock\<close>

text \<open>
  Claim C9. For an incoming record whose \<^verbatim>\<open>updated_at\<close> is more than one day from the
  local clock \<open>now\<close>, \<^verbatim>\<open>mergeTodo\<close> returns and works on the raw value, not on the
  value \<^verbatim>\<open>validateTimestamp\<close> would put in its place. A record absent locally is stored
  as it came (with \<^verbatim>\<open>synced\<close> 0). For a record present locally the raw value is compared
  with the local one: when it is larger the incoming payload is written and the stored
  \<^verbatim>\<open>updated_at\<close> is the raw value, otherwise the local record stays.
\<close>

theorem mergeTodo_uses_raw_updated_at:
  assumes "\<bar>updated_at remoteTodo - now\<bar> > oneDay"
  shows "\<exists>db' stored.
           mergeTodo remoteTodo db = Inr db' \<and>
           getTodoById db' (id_todo remoteTodo) = Some stored \<and>
           (case getTodoById db (id_todo remoteTodo) of
              None \<Rightarrow>
                stored = remoteTodo\<lparr>synced := 0\<rparr> \<and>
                updated_at stored \<noteq> validateTimestamp now (updated_at remoteTodo)
            | Some localTodo \<Rightarrow>
                if updated_at localTodo < updated_at remoteTodo
                then updated_at stored = updated_at remoteTodo \<and>
                     updated_at stored \<noteq> validateTimestamp now (updated_at remoteTodo) \<and>
                     title stored = title remoteTodo \<and>
                     description stored = description remoteTodo \<and>
                     completed stored = completed remoteTodo \<and>
                     priority stored = priority remoteTodo \<and>
                     due_date stored = due_date remoteTodo \<and>
                     deleted stored = deleted remoteTodo
                else stored = localTodo)"
proof -
  from assms have skew: "validateTimestamp now (updated_at remoteTodo) \<noteq> updated_at remoteTodo"
    by (auto simp: validateTimestamp_def oneDay_def)
  show ?thesis
  proof (cases "getTodoById db (id_todo remoteTodo)")
    case None
    then have "id_todo remoteTodo \<notin> set (map id_todo db)"
      by (simp add: getTodoById_None_iff)
    with None skew show ?thesis
      by (simp add: mergeTodo_def insertTodo_def getTodoById_append)
  next
    case (Some l)
    show ?thesis
    proof (cases "updated_at l < updated_at remoteTodo")
      case True
      with getTodoById_mergeTodo_same [OF Some] Some skew show ?thesis by auto
    next
      case False
      with getTodoById_mergeTodo_same [OF Some] Some show ?thesis by auto
    qed
  qed
qed

theorem mergeTodo_uses_raw_updated_at_witness:
  "\<bar>updated_at (sample_todo ''x'' ''new'' ''dev-b'' 7 200000000) - 0\<bar> > oneDay \<and>
   mergeTodo (sample_todo ''x'' ''new'' ''dev-b'' 7 200000000)
       [sample_todo ''x'' ''old'' ''dev-a'' 5 10]
     = Inr [sample_todo ''x'' ''new'' ''dev-a'' 5 200000000]"
  using mergeTodo_uses_raw_updated_at
    [of "sample_todo ''x'' ''new'' ''dev-b'' 7 200000000" 0
        "[sample_todo ''x'' ''old'' ''dev-a'' 5 10]"]
  by (simp add: getTodoById_def mergeTodo_def updateTodo_def sample_todo_def oneDay_def)

subsection \<open>A request for 250 ids\<close>

lemma length_getTodosByIds_sample:
  "length (getTodosByIds (map sample_row [0..<n]) (map sample_id [0..<n])) = n"
proof -
  have "filter (\<lambda>row. id_todo row \<in> set (map sample_id [0..<n])) (map sample_row [0..<n])
          = map sample_row [0..<n]"
    by (rule filter_True) (auto simp: sample_row_def sample_todo_def)
  then show ?thesis by (simp add: getTodosByIds_def)
qed

lemma sendTodosInBatches_250:
  assumes "length ts = 250"
  shows "map_option (map (\<lambda>m. (msg_type m, length (todos (payload m)), batchIndex (payload m),
             totalBatches (payload m)))) (sendTodosInBatches eng clock ts 100)
     = Some [(''SYNC_DATA'', 100, Some 0, Some 3), (''SYNC_DATA'', 100, Some 1, Some 3),
             (''SYNC_DATA'', 50, Some 2, Some 3)]"
  using assms
  by (simp add: sendTodosInBatches_def sendMessage_def)

text \<open>
  Claim C7. The store holds 250 records and a \<^verbatim>\<open>REQUEST_SYNC\<close> asks for their 250 ids:
  \<^verbatim>\<open>handleSyncRequest\<close> sends one \<^verbatim>\<open>SYNC_DATA\<close> message with all 250 records and
  neither \<^verbatim>\<open>batchIndex\<close> nor \<^verbatim>\<open>totalBatches\<close>.
\<close>

theorem handleSyncRequest_single_message:
  "map (\<lambda>m. (msg_type m, length (todos (payload m)), batchIndex (payload m),
             totalBatches (payload m)))
       (handleSyncRequest sample_engine now (map sample_id [0..<250]))
     = [(''SYNC_DATA'', 250, None, None)]"
  using length_getTodosByIds_sample [of 250]
  by (simp add: handleSyncRequest_def sample_engine_def sendMessage_def)

section \<open>Properties of the relay server\<close>

subsection \<open>The sweep\<close>

lemma time_Sub_gt: "time_Sub now created > 15 * Minute \<longleftrightarrow> now - created > 15 * Minute"
  by (simp add: time_Sub_def maxDuration_def minDuration_def Minute_def Let_def)

lemma cleanup_range_map_of:
  "map_of (snd (cleanup_range now es m :: 'p effect list \<times> sessions)) k =
     (if \<exists>s. (k, s) \<in> set es \<and> time_Sub now (CreatedAt s) > 15 * Minute then None
      else map_of m k)"
proof (induction es arbitrary: m)
  case Nil
  show ?case by simp
next
  case (Cons e es)
  obtain sid s where e: "e = (sid, s)" by (cases e)
  show ?case
  proof (cases "time_Sub now (CreatedAt s) > 15 * Minute")
    case True
    have "map_of (snd (cleanup_range now (e # es) m :: 'p effect list \<times> sessions)) k
          = map_of (snd (cleanup_range now es (AList.delete sid m) :: 'p effect list \<times> sessions)) k"
      using True e by (simp add: split_def Let_def)
    also have "\<dots> = (if \<exists>s. (k, s) \<in> set es \<and> time_Sub now (CreatedAt s) > 15 * Minute then None
      else map_of (AList.delete sid m) k)"
      by (rule Cons.IH)
    finally show ?thesis using True e by (auto simp: delete_conv)
  next
    case False
    then show ?thesis using e Cons.IH [of m] by auto
  qed
qed

lemma cleanup_range_closes:
  assumes "(k, s) \<in> set es" and "time_Sub now (CreatedAt s) > 15 * Minute"
  shows "\<exists>pre post. fst (cleanup_range now es m :: 'p effect list \<times> sessions) =
           pre @ map ConnClose (map snd (Connections s)) @ [SessionDelete k] @ post"
  using assms
proof (induction es arbitrary: m)
  case Nil
  then show ?case by simp
next
  case (Cons e es)
  obtain sid s' where e: "e = (sid, s')" by (cases e)
  show ?case
  proof (cases "e = (k, s)")
    case True
    with e Cons.prems(2) have
      "fst (cleanup_range now (e # es) m :: 'p effect list \<times> sessions) =
         [] @ map ConnClose (map snd (Connections s)) @ [SessionDelete k]
            @ fst (cleanup_range now es (AList.delete k m) :: 'p effect list \<times> sessions)"
      by (simp add: split_def Let_def)
    then show ?thesis by blast
  next
    case False
    with Cons.prems have mem: "(k, s) \<in> set es" by simp
    show ?thesis
    proof (cases "time_Sub now (CreatedAt s') > 15 * Minute")
      case True
      from Cons.IH [OF mem Cons.prems(2), of "AList.delete sid m"]
      obtain pre post where
        "fst (cleanup_range now es (AList.delete sid m) :: 'p effect list \<times> sessions) =
           pre @ map ConnClose (map snd (Connections s)) @ [SessionDelete k] @ post"
        by blast
      with True e have
        "fst (cleanup_range now (e # es) m :: 'p effect list \<times> sessions) =
           (map ConnClose (map snd (Connections s')) @ [SessionDelete sid] @ pre)
           @ map ConnClose (map snd (Connections s)) @ [SessionDelete k] @ post"
        by (simp add: split_def Let_def)
      then show ?thesis by blast
    next
      case False
      with e Cons.IH [OF mem Cons.prems(2), of m] show ?thesis by simp
    qed
  qed
qed

text \<open>
  Claim C5. In a registry (a map: no session id twice) a sweep at time \<open>now\<close> treats a
  session as follows. If its age \<open>now - CreatedAt\<close> exceeds 15 minutes it is absent
  afterwards, and the effects of the sweep contain the \<^verbatim>\<open>Close\<close> of each of its
  connections, one after the other, directly followed by its removal from the map. If its
  age does not exceed 15 minutes it is present afterwards, unchanged.
\<close>

theorem cleanupSessions_expiry:
  assumes "distinct (map fst m)" and "map_of m sessionID = Some session"
    and "cleanupSessions now m = (effs, m')"
  shows "if now - CreatedAt session > 15 * Minute
         then map_of m' sessionID = None \<and>
              (\<exists>pre post. effs = pre @ map ConnClose (map snd (Connections session))
                                   @ [SessionDelete sessionID] @ post)
         else map_of m' sessionID = Some session"
proof -
  from assms(2) have mem: "(sessionID, session) \<in> set m" by (rule map_of_SomeD)
  have m': "m' = snd (cleanupSessions now m :: 'a effect list \<times> sessions)"
    and effs: "effs = fst (cleanupSessions now m :: 'a effect list \<times> sessions)"
    using assms(3) by simp_all
  show ?thesis
  proof (cases "now - CreatedAt session > 15 * Minute")
    case True
    then have ex: "time_Sub now (CreatedAt session) > 15 * Minute" by (simp add: time_Sub_gt)
    with mem have "map_of m' sessionID = None"
      unfolding m' cleanupSessions_def cleanup_range_map_of by auto
    moreover from cleanup_range_closes [OF mem ex, of m]
    have "\<exists>pre post. effs = pre @ map ConnClose (map snd (Connections session))
                                   @ [SessionDelete sessionID] @ post"
      unfolding effs cleanupSessions_def .
    ultimately show ?thesis using True by simp
  next
    case False
    have "\<not> (\<exists>s. (sessionID, s) \<in> set m \<and> time_Sub now (CreatedAt s) > 15 * Minute)"
    proof
      assume "\<exists>s. (sessionID, s) \<in> set m \<and> time_Sub now (CreatedAt s) > 15 * Minute"
      then obtain s where s: "(sessionID, s) \<in> set m" "time_Sub now (CreatedAt s) > 15 * Minute"
        by blast
      from assms(1) s(1) have "map_of m sessionID = Some s" by simp
      with assms(2) have "s = session" by simp
      with s(2) False show False by (simp add: time_Sub_gt)
    qed
    then have "map_of m' sessionID = map_of m sessionID"
      unfolding m' cleanupSessions_def cleanup_range_map_of by auto
    with assms(2) False show ?thesis by simp
  qed
qed

theorem cleanupSessions_expiry_witness:
  "distinct (map fst [(''old'', sample_session ''old'' [(''d1'', 1), (''d2'', 2)] 0),
                      (''young'', sample_session ''young'' [(''d3'', 3)] (2 * Minute))]) \<and>
   map_of [(''old'', sample_session ''old'' [(''d1'', 1), (''d2'', 2)] 0),
           (''young'', sample_session ''young'' [(''d3'', 3)] (2 * Minute))] ''old''
     = Some (sample_session ''old'' [(''d1'', 1), (''d2'', 2)] 0) \<and>
   (cleanupSessions (16 * Minute)
      [(''old'', sample_session ''old'' [(''d1'', 1), (''d2'', 2)] 0),
       (''young'', sample_session ''young'' [(''d3'', 3)] (2 * Minute))]
     :: unit effect list \<times> sessions)
     = ([ConnClose 1, ConnClose 2, SessionDelete ''old''],
        [(''young'', sample_session ''young'' [(''d3'', 3)] (2 * Minute))]) \<and>
   16 * Minute - CreatedAt (sample_session ''old'' [(''d1'', 1), (''d2'', 2)] 0) > 15 * Minute \<and>
   map_of [(''young'', sample_session ''young'' [(''d3'', 3)] (2 * Minute))] ''old''
     = (None :: SyncSession option)"
  using cleanupSessions_expiry
    [of "[(''old'', sample_session ''old'' [(''d1'', 1), (''d2'', 2)] 0),
          (''young'', sample_session ''young'' [(''d3'', 3)] (2 * Minute))]"
        "''old''" "sample_session ''old'' [(''d1'', 1), (''d2'', 2)] 0" "16 * Minute"
        "[ConnClose 1, ConnClose 2, SessionDelete ''old''] :: unit effect list"
        "[(''young'', sample_session ''young'' [(''d3'', 3)] (2 * Minute))]"]
  by (simp add: cleanupSessions_def sample_session_def time_Sub_def Minute_def
      maxDuration_def minDuration_def)

subsection \<open>Leaving a session\<close>

lemma length_delete_0_iff:
  "length (AList.delete k al) = 0 \<longleftrightarrow> set (map fst al) \<subseteq> {k}"
  by (induction al) auto

text \<open>
  Claim C6. For a registry that holds the session, \<^verbatim>\<open>removeConnection\<close> does this: if
  the device was the only participant the session is absent afterwards; otherwise the
  session is still there, the device is no longer one of its participants, it is not
  empty, and its other participants are as before. Other sessions are untouched, and if
  no session of the registry was empty before, none is empty afterwards.
\<close>

theorem removeConnection_leave:
  assumes "map_of m sessionID = Some session"
    and "removeConnection sessionID deviceID m = (effs, m')"
  shows "(if set (map fst (Connections session)) \<subseteq> {deviceID}
          then map_of m' sessionID = None
          else \<exists>session'. map_of m' sessionID = Some session' \<and>
                 map_of (Connections session') deviceID = None \<and>
                 Connections session' \<noteq> [] \<and>
                 (\<forall>d. d \<noteq> deviceID \<longrightarrow>
                    map_of (Connections session') d = map_of (Connections session) d)) \<and>
         (\<forall>other. other \<noteq> sessionID \<longrightarrow> map_of m' other = map_of m other) \<and>
         ((\<forall>e \<in> set m. Connections (snd e) \<noteq> []) \<longrightarrow>
          (\<forall>e \<in> set m'. Connections (snd e) \<noteq> []))"
proof (cases "set (map fst (Connections session)) \<subseteq> {deviceID}")
  case True
  then have len: "length (AList.delete deviceID (Connections session)) = 0"
    by (simp only: length_delete_0_iff)
  with assms have m': "m' = AList.delete sessionID m"
    by (simp add: removeConnection_def Let_def)
  have "set m' \<subseteq> set m" unfolding m' by (auto simp: AList.delete_eq)
  then show ?thesis using True by (auto simp: m' delete_conv)
next
  case False
  then have len: "length (AList.delete deviceID (Connections session)) \<noteq> 0"
    by (simp only: length_delete_0_iff not_False_eq_True)
  define session' where
    "session' = session\<lparr>Connections := AList.delete deviceID (Connections session)\<rparr>"
  from len assms have m': "m' = AList.update sessionID session' m"
    by (simp add: removeConnection_def Let_def session'_def)
  have ne: "Connections session' \<noteq> []" using len by (simp add: session'_def)
  have "set m' \<subseteq> insert (sessionID, session') (set m)"
    unfolding m' by (induction m) auto
  with ne have inv: "(\<forall>e \<in> set m. Connections (snd e) \<noteq> []) \<longrightarrow>
          (\<forall>e \<in> set m'. Connections (snd e) \<noteq> [])"
    by auto
  have "map_of m' sessionID = Some session'" by (simp add: m' update_conv')
  moreover have "map_of (Connections session') deviceID = None"
    by (simp add: session'_def delete_conv)
  moreover have "\<forall>d. d \<noteq> deviceID \<longrightarrow>
      map_of (Connections session') d = map_of (Connections session) d"
    by (simp add: session'_def delete_conv)
  moreover have "\<forall>other. other \<noteq> sessionID \<longrightarrow> map_of m' other = map_of m other"
    by (simp add: m' update_conv')
  ultimately show ?thesis using False ne inv by simp
qed

theorem removeConnection_leave_witness:
  "map_of [(''A'', sample_session ''A'' [(''d1'', 1)] 0),
           (''B'', sample_session ''B'' [(''d2'', 2), (''d3'', 3)] 0)] ''A''
     = Some (sample_session ''A'' [(''d1'', 1)] 0) \<and>
   (removeConnection ''A'' ''d1''
      [(''A'', sample_session ''A'' [(''d1'', 1)] 0),
       (''B'', sample_session ''B'' [(''d2'', 2), (''d3'', 3)] 0)] :: unit effect list \<times> sessions)
     = ([SessionDelete ''A''], [(''B'', sample_session ''B'' [(''d2'', 2), (''d3'', 3)] 0)]) \<and>
   set (map fst (Connections (sample_session ''A'' [(''d1'', 1)] 0))) \<subseteq> {''d1''} \<and>
   map_of [(''B'', sample_session ''B'' [(''d2'', 2), (''d3'', 3)] 0)] ''A''
     = (None :: SyncSession option)"
  using removeConnection_leave
    [of "[(''A'', sample_session ''A'' [(''d1'', 1)] 0),
          (''B'', sample_session ''B'' [(''d2'', 2), (''d3'', 3)] 0)]"
        "''A''" "sample_session ''A'' [(''d1'', 1)] 0" "''d1''"
        "[SessionDelete ''A''] :: unit effect list"
        "[(''B'', sample_session ''B'' [(''d2'', 2), (''d3'', 3)] 0)]"]
  by (simp add: removeConnection_def sample_session_def)

subsection \<open>Relaying\<close>

lemma relay_range_eq:
  "relay_range sender msg conns =
     map (\<lambda>e. WriteJSON (snd e) msg) (filter (\<lambda>e. fst e \<noteq> sender) conns)"
  by (induction conns) auto

lemma receivers_map_WriteJSON: "receivers (map (\<lambda>e. WriteJSON (f e) msg) es) = map f es"
  by (induction es) auto

lemma relayMessage_effects:
  "e \<in> set (relayMessage sessionID sender msg m) \<Longrightarrow> \<exists>c'. e = WriteJSON c' msg"
  by (auto simp: relayMessage_def relay_range_eq split: option.splits)

text \<open>
  Claim C4. \<^verbatim>\<open>relayMessage\<close> for session id \<open>sessionID\<close> writes nothing when the
  registry has no such session. Otherwise every effect is a write of the message itself to
  the connection of a participant of that session registered under a device id other than
  the sender's: the connections written to are among the connections of the participants
  of that session, so a connection that is not registered in it (a device joined only to
  another session) never receives the message. The sender's own connection, the one
  registered under the sender's device id, is not written to, each connection being
  registered under one device id of the session.
\<close>

theorem relayMessage_isolation:
  "(map_of m sessionID = None \<longrightarrow> relayMessage sessionID sender msg m = []) \<and>
   (\<forall>session. map_of m sessionID = Some session \<longrightarrow>
      (\<forall>e \<in> set (relayMessage sessionID sender msg m).
         \<exists>d c. e = WriteJSON c msg \<and> (d, c) \<in> set (Connections session) \<and> d \<noteq> sender) \<and>
      set (receivers (relayMessage sessionID sender msg m)) \<subseteq> snd ` set (Connections session) \<and>
      (\<forall>c. c \<notin> snd ` set (Connections session) \<longrightarrow>
         c \<notin> set (receivers (relayMessage sessionID sender msg m))) \<and>
      (\<forall>c. (\<forall>d. (d, c) \<in> set (Connections session) \<longrightarrow> d = sender) \<longrightarrow>
         c \<notin> set (receivers (relayMessage sessionID sender msg m))) \<and>
      (distinct (map snd (Connections session)) \<longrightarrow>
         (\<forall>c. (sender, c) \<in> set (Connections session) \<longrightarrow>
            c \<notin> set (receivers (relayMessage sessionID sender msg m)))))"
proof -
  have inj: "d = sender" if "distinct (map snd conns)" "(sender, c) \<in> set conns" "(d, c) \<in> set conns"
    for conns :: "(string \<times> conn) list" and d c
  proof -
    from that(1) have "inj_on snd (set conns)" by (simp add: distinct_map)
    from inj_onD [OF this, of "(d, c)" "(sender, c)"] that(2,3) show ?thesis by simp
  qed
  show ?thesis
    by (auto simp: relayMessage_def relay_range_eq receivers_map_WriteJSON dest: inj)
qed

theorem relayMessage_isolation_witness:
  "map_of [(''A'', sample_session ''A'' [(''d1'', 1), (''d2'', 2)] 0),
           (''B'', sample_session ''B'' [(''d3'', 3)] 0)] ''A''
     = Some (sample_session ''A'' [(''d1'', 1), (''d2'', 2)] 0) \<and>
   distinct (map snd (Connections (sample_session ''A'' [(''d1'', 1), (''d2'', 2)] 0))) \<and>
   (''d1'', 1) \<in> set (Connections (sample_session ''A'' [(''d1'', 1), (''d2'', 2)] 0)) \<and>
   relayMessage ''A'' ''d1'' (sample_message ''SYNC_DATA'' ''A'' ''d1'' '''')
     [(''A'', sample_session ''A'' [(''d1'', 1), (''d2'', 2)] 0),
      (''B'', sample_session ''B'' [(''d3'', 3)] 0)]
     = [WriteJSON 2 (sample_message ''SYNC_DATA'' ''A'' ''d1'' '''')] \<and>
   3 \<notin> set (receivers (relayMessage ''A'' ''d1'' (sample_message ''SYNC_DATA'' ''A'' ''d1'' '''')
     [(''A'', sample_session ''A'' [(''d1'', 1), (''d2'', 2)] 0),
      (''B'', sample_session ''B'' [(''d3'', 3)] 0)])) \<and>
   1 \<notin> set (receivers (relayMessage ''A'' ''d1'' (sample_message ''SYNC_DATA'' ''A'' ''d1'' '''')
     [(''A'', sample_session ''A'' [(''d1'', 1), (''d2'', 2)] 0),
      (''B'', sample_session ''B'' [(''d3'', 3)] 0)]))"
  using relayMessage_isolation
    [of "[(''A'', sample_session ''A'' [(''d1'', 1), (''d2'', 2)] 0),
          (''B'', sample_session ''B'' [(''d3'', 3)] 0)]"
        "''A''" "''d1''" "sample_message ''SYNC_DATA'' ''A'' ''d1'' ''''"]
  by (simp add: relayMessage_def sample_session_def)

subsection \<open>Joining\<close>

lemma handleJoin_blocks: "\<exists>m'. handleJoin sessionID deviceID c msg now m = Blocks m'"
  by (simp add: handleJoin_def RLock_returns_def Let_def split_def)

lemma registry_of_handleJoin:
  "registry_of (handleJoin sessionID deviceID c (msg\<lparr>ToDevice := recipient\<rparr>) now m)
     = registry_of (handleJoin sessionID deviceID c msg now m)"
  by (simp add: handleJoin_def RLock_returns_def Let_def split_def)

lemma effects_of_handleJoin: "effects_of (handleJoin sessionID deviceID c msg now m) = []"
  by (simp add: handleJoin_def RLock_returns_def Let_def split_def)

text \<open>
  A \<^verbatim>\<open>JOIN\<close> leaves the handler blocked in \<^verbatim>\<open>handleJoin\<close>: nothing is written and
  no later read is taken.
\<close>

lemma handler_loop_JOIN_blocks:
  assumes "Type msg = ''JOIN''"
  shows "\<exists>m'. handler_loop c sessionID deviceID ((now, ReadOK msg) # rest) m = ([], m', Blocked)"
proof -
  obtain m' where "handleJoin (SessionID msg) (FromDevice msg) c msg now m = Blocks m'"
    using handleJoin_blocks by blast
  with assms show ?thesis by (simp add: handle_message_def Let_def)
qed

text \<open>
  Claim C10. The connections \<^verbatim>\<open>relayMessage\<close> writes to are the same whatever the
  \<^verbatim>\<open>ToDevice\<close> of the message, in particular the same as with none set: they are the
  connections of all participants of the session other than the sender, and each is
  written the message as it came. The same holds for one step of the connection handler:
  the registry it leaves, the connections it writes to and whether it blocks do not depend
  on \<^verbatim>\<open>ToDevice\<close>.
\<close>

theorem relayMessage_ignores_ToDevice:
  "receivers (relayMessage sessionID sender (msg\<lparr>ToDevice := recipient\<rparr>) m)
     = receivers (relayMessage sessionID sender (msg\<lparr>ToDevice := ''''\<rparr>) m) \<and>
   receivers (relayMessage sessionID sender msg m)
     = (case map_of m sessionID of
          None \<Rightarrow> []
        | Some session \<Rightarrow> map snd (filter (\<lambda>e. fst e \<noteq> sender) (Connections session))) \<and>
   set (relayMessage sessionID sender msg m)
     = (\<lambda>c. WriteJSON c msg) ` set (receivers (relayMessage sessionID sender msg m)) \<and>
   registry_of (handle_message c now (msg\<lparr>ToDevice := recipient\<rparr>) m)
     = registry_of (handle_message c now msg m) \<and>
   receivers (effects_of (handle_message c now (msg\<lparr>ToDevice := recipient\<rparr>) m))
     = receivers (effects_of (handle_message c now msg m)) \<and>
   (handle_message c now (msg\<lparr>ToDevice := recipient\<rparr>) m
      = Blocks (registry_of (handle_message c now (msg\<lparr>ToDevice := recipient\<rparr>) m)))
     = (handle_message c now msg m = Blocks (registry_of (handle_message c now msg m)))"
proof -
  have r: "receivers (relayMessage s d x m) =
        (case map_of m s of None \<Rightarrow> []
         | Some session \<Rightarrow> map snd (filter (\<lambda>e. fst e \<noteq> d) (Connections session)))"
    for s d and x :: "'a SyncMessage"
    by (simp add: relayMessage_def relay_range_eq receivers_map_WriteJSON split: option.splits)
  have s: "set (relayMessage sessionID sender msg m)
     = (\<lambda>c. WriteJSON c msg) ` set (receivers (relayMessage sessionID sender msg m))"
    by (auto simp: relayMessage_def relay_range_eq receivers_map_WriteJSON split: option.splits)
  obtain m1 where j1: "handleJoin (SessionID msg) (FromDevice msg) c (msg\<lparr>ToDevice := recipient\<rparr>) now m
      = Blocks m1" using handleJoin_blocks by blast
  obtain m2 where j2: "handleJoin (SessionID msg) (FromDevice msg) c msg now m = Blocks m2"
    using handleJoin_blocks by blast
  from j1 j2 registry_of_handleJoin
    [where sessionID = "SessionID msg" and deviceID = "FromDevice msg" and c = c and msg = msg
       and recipient = recipient and now = now and m = m]
  have "m1 = m2" by simp
  with j1 j2 have h: "registry_of (handle_message c now (msg\<lparr>ToDevice := recipient\<rparr>) m)
     = registry_of (handle_message c now msg m) \<and>
   receivers (effects_of (handle_message c now (msg\<lparr>ToDevice := recipient\<rparr>) m))
     = receivers (effects_of (handle_message c now msg m)) \<and>
   (handle_message c now (msg\<lparr>ToDevice := recipient\<rparr>) m
      = Blocks (registry_of (handle_message c now (msg\<lparr>ToDevice := recipient\<rparr>) m)))
     = (handle_message c now msg m = Blocks (registry_of (handle_message c now msg m)))"
    by (simp add: handle_message_def Let_def r)
  from r [of sessionID sender "msg\<lparr>ToDevice := recipient\<rparr>"]
    r [of sessionID sender "msg\<lparr>ToDevice := ''''\<rparr>"]
  have r1: "receivers (relayMessage sessionID sender (msg\<lparr>ToDevice := recipient\<rparr>) m)
     = receivers (relayMessage sessionID sender (msg\<lparr>ToDevice := ''''\<rparr>) m)"
    by simp
  from r1 r [of sessionID sender msg] s h show ?thesis by blast
qed

subsection \<open>Messages the handler does not know\<close>

text \<open>
  Claim C3, amended. For a frame that \<^verbatim>\<open>ReadJSON\<close> decodes and whose type is none of the
  seven types of the \<^verbatim>\<open>switch\<close>, the handler writes nothing (no \<^verbatim>\<open>ERROR\<close> to the
  sender, nothing to any participant), leaves the registry as it is and goes on reading
  from the connection. Whatever the decoded message, every write of the handler is the
  received message itself, relayed, or a \<^verbatim>\<open>PONG\<close> to the sender: the handler writes no
  \<^verbatim>\<open>ERROR\<close> of its own. A missing session id is not checked: with the empty session id
  a message of one of the five relayed types goes to \<^verbatim>\<open>relayMessage\<close> under the session
  id \<^verbatim>\<open>""\<close>, a \<^verbatim>\<open>PING\<close> is answered by a \<^verbatim>\<open>PONG\<close> with that session id, and a
  \<^verbatim>\<open>JOIN\<close> goes to \<^verbatim>\<open>handleJoin\<close> with it. A frame that does not decode ends the
  loop: the connection is removed under the ids of the last decoded message and closed.
\<close>

theorem handle_message_no_error_reply:
  "(Type (msg :: 'p SyncMessage) \<notin> {''JOIN'', ''METADATA_EXCHANGE'', ''REQUEST_SYNC'', ''SYNC_DATA'',
                 ''SYNC_COMPLETE'', ''ERROR'', ''PING''} \<longrightarrow>
      handle_message c now msg m = Returns [] m \<and>
      handler_loop c sessionID deviceID ((now, ReadOK msg) # rest) m
        = handler_loop c (SessionID msg) (FromDevice msg) rest m) \<and>
   (\<forall>e \<in> set (effects_of (handle_message c now msg m)).
      (\<exists>c'. e = WriteJSON c' msg) \<or> (\<exists>pong. e = WriteJSON c pong \<and> Type pong = ''PONG'')) \<and>
   (SessionID msg = '''' \<longrightarrow>
      (Type msg \<in> {''METADATA_EXCHANGE'', ''REQUEST_SYNC'', ''SYNC_DATA'',
                    ''SYNC_COMPLETE'', ''ERROR''} \<longrightarrow>
         handle_message c now msg m = Returns (relayMessage '''' (FromDevice msg) msg m) m) \<and>
      (Type msg = ''PING'' \<longrightarrow>
         handle_message c now msg m
           = Returns [WriteJSON c \<lparr>Type = ''PONG'', SessionID = '''', FromDevice = '''',
                                   ToDevice = '''', Timestamp = UnixMilli now,
                                   Payload = None\<rparr>] m) \<and>
      (Type msg = ''JOIN'' \<longrightarrow>
         handle_message c now msg m = handleJoin '''' (FromDevice msg) c msg now m)) \<and>
   handler_loop c sessionID deviceID ((now, ReadError) # rest) m
     = (fst (removeConnection sessionID deviceID m) @ [ConnClose c],
        snd (removeConnection sessionID deviceID m :: 'p effect list \<times> sessions), Closed)"
proof -
  have a: "Type msg \<notin> {''JOIN'', ''METADATA_EXCHANGE'', ''REQUEST_SYNC'', ''SYNC_DATA'',
                 ''SYNC_COMPLETE'', ''ERROR'', ''PING''} \<longrightarrow>
      handle_message c now msg m = Returns [] m \<and>
      handler_loop c sessionID deviceID ((now, ReadOK msg) # rest) m
        = handler_loop c (SessionID msg) (FromDevice msg) rest m"
    by (simp add: handle_message_def split_def)
  have b: "\<forall>e \<in> set (effects_of (handle_message c now msg m)).
      (\<exists>c'. e = WriteJSON c' msg) \<or> (\<exists>pong. e = WriteJSON c pong \<and> Type pong = ''PONG'')"
    by (auto simp: handle_message_def effects_of_handleJoin Let_def dest: relayMessage_effects)
  have c: "SessionID msg = '''' \<longrightarrow>
      (Type msg \<in> {''METADATA_EXCHANGE'', ''REQUEST_SYNC'', ''SYNC_DATA'',
                    ''SYNC_COMPLETE'', ''ERROR''} \<longrightarrow>
         handle_message c now msg m = Returns (relayMessage '''' (FromDevice msg) msg m) m) \<and>
      (Type msg = ''PING'' \<longrightarrow>
         handle_message c now msg m
           = Returns [WriteJSON c \<lparr>Type = ''PONG'', SessionID = '''', FromDevice = '''',
                                   ToDevice = '''', Timestamp = UnixMilli now,
                                   Payload = None\<rparr>] m) \<and>
      (Type msg = ''JOIN'' \<longrightarrow>
         handle_message c now msg m = handleJoin '''' (FromDevice msg) c msg now m)"
    by (auto simp: handle_message_def Let_def)
  have d: "handler_loop c sessionID deviceID ((now, ReadError) # rest) m
     = (fst (removeConnection sessionID deviceID m) @ [ConnClose c],
        snd (removeConnection sessionID deviceID m :: 'p effect list \<times> sessions), Closed)"
    by (simp add: split_def Let_def)
  from a b c d show ?thesis by blast
qed

theorem handle_message_no_error_reply_witness:
  "Type (sample_message ''BOGUS'' ''A'' ''d1'' '''')
     \<notin> {''JOIN'', ''METADATA_EXCHANGE'', ''REQUEST_SYNC'', ''SYNC_DATA'',
         ''SYNC_COMPLETE'', ''ERROR'', ''PING''} \<and>
   handle_message 1 0 (sample_message ''BOGUS'' ''A'' ''d1'' '''') [] = Returns [] [] \<and>
   SessionID (sample_message ''METADATA_EXCHANGE'' '''' ''d1'' '''') = '''' \<and>
   Type (sample_message ''METADATA_EXCHANGE'' '''' ''d1'' '''')
     \<in> {''METADATA_EXCHANGE'', ''REQUEST_SYNC'', ''SYNC_DATA'', ''SYNC_COMPLETE'', ''ERROR''} \<and>
   handle_message 1 0 (sample_message ''METADATA_EXCHANGE'' '''' ''d1'' '''') []
     = Returns (relayMessage '''' ''d1'' (sample_message ''METADATA_EXCHANGE'' '''' ''d1'' '''') [])
         []"
  using handle_message_no_error_reply
      [of "sample_message ''BOGUS'' ''A'' ''d1'' ''''" 1 0 "[]" "''''" "''''" "[]"]
    handle_message_no_error_reply
      [of "sample_message ''METADATA_EXCHANGE'' '''' ''d1'' ''''" 1 0 "[]" "''''" "''''" "[]"]
  by (simp add: sample_message_def)

text \<open>
  The claim C3 as it is written fails on the empty registry: a message of the unknown type
  \<^verbatim>\<open>BOGUS\<close> and a \<^verbatim>\<open>METADATA_EXCHANGE\<close> without session id both decode, and neither
  gets any answer: the handler writes nothing and goes on reading.
\<close>

theorem syncWebSocketHandler_no_error_counterexample:
  "syncWebSocketHandler 1 [(0, ReadOK (sample_message ''BOGUS'' ''A'' ''d1'' ''''))] []
     = ([], [], Reading) \<and>
   syncWebSocketHandler 1 [(0, ReadOK (sample_message ''METADATA_EXCHANGE'' '''' ''d1'' ''''))] []
     = ([], [], Reading)"
  by (simp add: syncWebSocketHandler_def handle_message_def relayMessage_def
      sample_message_def)

end
